theory Spec2Isabelle
  imports Complex_Main
begin

section \<open>Python exceptions\<close>

text \<open>
  The exceptions that the profiler and the analyzer can meet. \<open>KeyboardInterrupt\<close> and
  \<open>SystemExit\<close> derive from \<open>BaseException\<close> only, so that an \<open>except Exception\<close>
  clause does not catch them; all the others are subclasses of \<open>Exception\<close>. Each one
  carries its argument, and \<open>str_exn\<close> is what \<open>str(e)\<close> gives, as the log messages
  of the source print it: the argument itself, except for a \<open>KeyError\<close>, whose key is
  printed between single quotes.
\<close>

datatype exn =
    KeyError string
  | TypeError string
  | ValueError string
  | RuntimeError string
  | KeyboardInterrupt
  | SystemExit

fun is_Exception :: "exn \<Rightarrow> bool" where
  "is_Exception KeyboardInterrupt = False"
| "is_Exception SystemExit = False"
| "is_Exception _ = True"

fun str_exn :: "exn \<Rightarrow> string" where
  "str_exn (KeyError m) = CHR 0x27 # m @ [CHR 0x27]"
| "str_exn (TypeError m) = m"
| "str_exn (ValueError m) = m"
| "str_exn (RuntimeError m) = m"
| "str_exn KeyboardInterrupt = []"
| "str_exn SystemExit = []"

text \<open>Sequencing of calls that may raise: the first exception ends the computation.\<close>

fun bind :: "exn + 'a \<Rightarrow> ('a \<Rightarrow> exn + 'b) \<Rightarrow> exn + 'b" where
  "bind (Inl e) f = Inl e"
| "bind (Inr x) f = f x"

section \<open>The analyzer (analysis.py)\<close>

subsection \<open>Data\<close>

text \<open>
  One row of the data frame handed to the analyzer: a \<open>GPUStats\<close> of utils/gpu.py
  (its \<open>processes\<close> column is never read by the analysis and is left out). A timestamp
  is a \<open>datetime\<close>, here its number of microseconds, so that the difference of two
  timestamps is the \<open>timedelta\<close> in microseconds. The float columns are idealised as
  real numbers; \<open>memory_used\<close> and \<open>memory_total\<close> are integers (MB).
\<close>

record GPUStats =
  timestamp :: int
  device_id :: int
  gpu_name :: string
  utilization :: real
  memory_used :: int
  memory_total :: int
  temperature :: real
  power_usage :: real

text \<open>The dataclass \<open>PerformanceInsight\<close>.\<close>

record PerformanceInsight =
  ins_timestamp :: int
  severity :: string
  message :: string
  metric :: string
  ins_value :: real
  threshold :: real
  suggestion :: string

text \<open>
  The configuration is a dictionary of dictionaries, read as
  \<open>config['alerts']['gpu'][metric][level]\<close>; a missing key at any level raises
  \<open>KeyError\<close>.
\<close>

type_synonym config = "string \<rightharpoonup> (string \<rightharpoonup> (string \<rightharpoonup> (string \<rightharpoonup> real)))"

definition getitem :: "(string \<rightharpoonup> 'v) \<Rightarrow> string \<Rightarrow> exn + 'v" where
  "getitem d k = (case d k of None \<Rightarrow> Inl (KeyError k) | Some v \<Rightarrow> Inr v)"

definition alert_threshold :: "config \<Rightarrow> string \<Rightarrow> string \<Rightarrow> exn + real" where
  "alert_threshold config m level =
     bind (getitem config ''alerts'') (\<lambda>alerts.
     bind (getitem alerts ''gpu'') (\<lambda>gpu.
     bind (getitem gpu m) (\<lambda>per_metric.
     getitem per_metric level)))"

text \<open>The analyzer object: its configuration and the insights collected so far.\<close>

record PerformanceAnalyzer =
  config :: config
  insights :: "PerformanceInsight list"

text \<open>\<open>__init__\<close> stores the configuration and reads nothing from it.\<close>

definition PerformanceAnalyzer_init :: "config \<Rightarrow> exn + PerformanceAnalyzer" where
  "PerformanceAnalyzer_init cfg = Inr \<lparr>config = cfg, insights = []\<rparr>"

subsection \<open>Helpers standing for pandas and string formatting\<close>

text \<open>Decimal rendering of a device id inside an f-string.\<close>

fun str_nat :: "nat \<Rightarrow> string" where
  "str_nat n = (if n < 10 then [''0123456789'' ! n]
                else str_nat (n div 10) @ [''0123456789'' ! (n mod 10)])"

declare str_nat.simps [simp del]

definition str_int :: "int \<Rightarrow> string" where
  "str_int i = (if i < 0 then CHR ''-'' # str_nat (nat (- i)) else str_nat (nat i))"

text \<open>\<open>Series.max()\<close> of a non-empty series.\<close>

definition series_max :: "real list \<Rightarrow> real" where
  "series_max xs = fold max (tl xs) (hd xs)"

text \<open>\<open>Series.mean()\<close> of a non-empty series.\<close>

definition series_mean :: "real list \<Rightarrow> real" where
  "series_mean xs = sum_list xs / real (length xs)"

text \<open>
  \<open>Series.unique()\<close>: the distinct values in order of first appearance.
\<close>

fun unique :: "'a list \<Rightarrow> 'a list" where
  "unique [] = []"
| "unique (x # xs) = x # unique (filter (\<lambda>y. y \<noteq> x) xs)"

text \<open>
  The derived column \<open>(memory_used / memory_total) * 100\<close>, computed in the real
  numbers. Two things differ in the source, which computes in 64-bit floats. For
  \<open>memory_total = 0\<close> pandas gives an infinity or a NaN where HOL's division gives 0:
  what is proved about the value of this column is stated for rows with
  \<open>memory_total \<noteq> 0\<close>. And the float result is rounded, so that a percentage equal
  to a configured threshold in the real numbers may lie just above it in the source
  (5500 of 10000 gives 55.00000000000001): nothing is proved here about which side of a
  configured memory threshold a sample falls on.
\<close>

definition memory_pct :: "GPUStats \<Rightarrow> real" where
  "memory_pct r = (real_of_int (memory_used r) / real_of_int (memory_total r)) * 100"

subsection \<open>The two-threshold checks\<close>

definition check_utilization ::
  "config \<Rightarrow> GPUStats list \<Rightarrow> int \<Rightarrow> PerformanceInsight list \<Rightarrow> exn + PerformanceInsight list" where
  "check_utilization cfg gpu_data gpu_id ins =
     bind (alert_threshold cfg ''utilization'' ''warning'') (\<lambda>warning_threshold.
     bind (alert_threshold cfg ''utilization'' ''critical'') (\<lambda>critical_threshold.
       let high_util = filter (\<lambda>r. utilization r > warning_threshold) gpu_data in
       if high_util \<noteq> [] then
         let max_util = series_max (map utilization high_util) in
         if max_util \<ge> critical_threshold then
           Inr (ins @ [\<lparr>ins_timestamp = timestamp (last high_util),
                        severity = ''critical'',
                        message = ''GPU '' @ str_int gpu_id @ '' utilization critically high'',
                        metric = ''utilization'',
                        ins_value = max_util,
                        threshold = critical_threshold,
                        suggestion = ''Consider distributing workload across multiple GPUs or optimizing compute operations''\<rparr>])
         else
           Inr (ins @ [\<lparr>ins_timestamp = timestamp (last high_util),
                        severity = ''warning'',
                        message = ''GPU '' @ str_int gpu_id @ '' utilization high'',
                        metric = ''utilization'',
                        ins_value = max_util,
                        threshold = warning_threshold,
                        suggestion = ''Monitor for potential performance bottlenecks''\<rparr>])
       else Inr ins))"

definition check_memory_usage ::
  "config \<Rightarrow> GPUStats list \<Rightarrow> int \<Rightarrow> PerformanceInsight list \<Rightarrow> exn + PerformanceInsight list" where
  "check_memory_usage cfg gpu_data gpu_id ins =
     bind (alert_threshold cfg ''memory'' ''warning'') (\<lambda>warning_threshold.
     bind (alert_threshold cfg ''memory'' ''critical'') (\<lambda>critical_threshold.
       let high_mem = filter (\<lambda>r. memory_pct r > warning_threshold) gpu_data in
       if high_mem \<noteq> [] then
         let max_mem_pct = series_max (map memory_pct high_mem) in
         if max_mem_pct \<ge> critical_threshold then
           Inr (ins @ [\<lparr>ins_timestamp = timestamp (last high_mem),
                        severity = ''critical'',
                        message = ''GPU '' @ str_int gpu_id @ '' memory usage critically high'',
                        metric = ''memory'',
                        ins_value = max_mem_pct,
                        threshold = critical_threshold,
                        suggestion = ''Consider reducing batch size or implementing gradient checkpointing''\<rparr>])
         else
           Inr (ins @ [\<lparr>ins_timestamp = timestamp (last high_mem),
                        severity = ''warning'',
                        message = ''GPU '' @ str_int gpu_id @ '' memory usage high'',
                        metric = ''memory'',
                        ins_value = max_mem_pct,
                        threshold = warning_threshold,
                        suggestion = ''Monitor memory usage and consider optimization if it continues to increase''\<rparr>])
       else Inr ins))"

definition check_temperature ::
  "config \<Rightarrow> GPUStats list \<Rightarrow> int \<Rightarrow> PerformanceInsight list \<Rightarrow> exn + PerformanceInsight list" where
  "check_temperature cfg gpu_data gpu_id ins =
     bind (alert_threshold cfg ''temperature'' ''warning'') (\<lambda>warning_threshold.
     bind (alert_threshold cfg ''temperature'' ''critical'') (\<lambda>critical_threshold.
       let high_temp = filter (\<lambda>r. temperature r > warning_threshold) gpu_data in
       if high_temp \<noteq> [] then
         let max_temp = series_max (map temperature high_temp) in
         if max_temp \<ge> critical_threshold then
           Inr (ins @ [\<lparr>ins_timestamp = timestamp (last high_temp),
                        severity = ''critical'',
                        message = ''GPU '' @ str_int gpu_id @ '' temperature critically high'',
                        metric = ''temperature'',
                        ins_value = max_temp,
                        threshold = critical_threshold,
                        suggestion = ''Check cooling system and consider reducing workload or implementing thermal throttling''\<rparr>])
         else
           Inr (ins @ [\<lparr>ins_timestamp = timestamp (last high_temp),
                        severity = ''warning'',
                        message = ''GPU '' @ str_int gpu_id @ '' temperature high'',
                        metric = ''temperature'',
                        ins_value = max_temp,
                        threshold = warning_threshold,
                        suggestion = ''Monitor temperature and ensure proper cooling''\<rparr>])
       else Inr ins))"

definition check_power_usage ::
  "config \<Rightarrow> GPUStats list \<Rightarrow> int \<Rightarrow> PerformanceInsight list \<Rightarrow> exn + PerformanceInsight list" where
  "check_power_usage cfg gpu_data gpu_id ins =
     bind (alert_threshold cfg ''power'' ''warning'') (\<lambda>warning_threshold.
     bind (alert_threshold cfg ''power'' ''critical'') (\<lambda>critical_threshold.
       let high_power = filter (\<lambda>r. power_usage r > warning_threshold) gpu_data in
       if high_power \<noteq> [] then
         let max_power = series_max (map power_usage high_power) in
         if max_power \<ge> critical_threshold then
           Inr (ins @ [\<lparr>ins_timestamp = timestamp (last high_power),
                        severity = ''critical'',
                        message = ''GPU '' @ str_int gpu_id @ '' power usage critically high'',
                        metric = ''power'',
                        ins_value = max_power,
                        threshold = critical_threshold,
                        suggestion = ''Consider implementing power limits or optimizing power-intensive operations''\<rparr>])
         else
           Inr (ins @ [\<lparr>ins_timestamp = timestamp (last high_power),
                        severity = ''warning'',
                        message = ''GPU '' @ str_int gpu_id @ '' power usage high'',
                        metric = ''power'',
                        ins_value = max_power,
                        threshold = warning_threshold,
                        suggestion = ''Monitor power usage and consider optimization if it continues to increase''\<rparr>])
       else Inr ins))"

subsection \<open>Idle periods\<close>

text \<open>
  \<open>idle_threshold = 10\<close> and \<open>min_idle_duration = timedelta(minutes=5)\<close>, the latter
  in microseconds.
\<close>

definition idle_threshold :: real where
  "idle_threshold = 10"

definition min_idle_duration :: int where
  "min_idle_duration = 5 * 60 * 1000000"

text \<open>
  The \<open>for idx, row in gpu_data.iterrows()\<close> loop, with its two variables
  \<open>idle_periods\<close> and \<open>current_period\<close> passed along.
\<close>

fun idle_scan ::
  "GPUStats list \<Rightarrow> (int \<times> int) list \<Rightarrow> int option \<Rightarrow> (int \<times> int) list \<times> int option" where
  "idle_scan [] idle_periods current_period = (idle_periods, current_period)"
| "idle_scan (row # rows) idle_periods current_period =
     (if utilization row < idle_threshold then
        (case current_period of
           None \<Rightarrow> idle_scan rows idle_periods (Some (timestamp row))
         | Some start \<Rightarrow> idle_scan rows idle_periods (Some start))
      else
        (case current_period of
           Some start \<Rightarrow>
             (let duration = timestamp row - start in
              if duration \<ge> min_idle_duration
              then idle_scan rows (idle_periods @ [(start, timestamp row)]) None
              else idle_scan rows idle_periods None)
         | None \<Rightarrow> idle_scan rows idle_periods None))"

text \<open>The part after the loop: an idle period still open at the end of the series.\<close>

definition close_ongoing ::
  "GPUStats list \<Rightarrow> (int \<times> int) list \<times> int option \<Rightarrow> (int \<times> int) list" where
  "close_ongoing gpu_data scanned =
     (case snd scanned of
        Some start \<Rightarrow>
          (let duration = timestamp (last gpu_data) - start in
           if duration \<ge> min_idle_duration
           then fst scanned @ [(start, timestamp (last gpu_data))]
           else fst scanned)
      | None \<Rightarrow> fst scanned)"

text \<open>
  The insight appended for one idle period. \<open>str_ts\<close> stands for the rendering of a
  timestamp inside the f-string of the suggestion.
\<close>

definition idle_insight :: "(int \<Rightarrow> string) \<Rightarrow> int \<Rightarrow> int \<times> int \<Rightarrow> PerformanceInsight" where
  "idle_insight str_ts gpu_id period =
     \<lparr>ins_timestamp = snd period,
      severity = ''info'',
      message = ''GPU '' @ str_int gpu_id @ '' idle period detected'',
      metric = ''utilization'',
      ins_value = idle_threshold,
      threshold = idle_threshold,
      suggestion = ''Consider scheduling other workloads during idle periods ('' @
                   str_ts (fst period) @ '' to '' @ str_ts (snd period) @ '')''\<rparr>"

definition check_idle_periods ::
  "(int \<Rightarrow> string) \<Rightarrow> GPUStats list \<Rightarrow> int \<Rightarrow> PerformanceInsight list \<Rightarrow> PerformanceInsight list" where
  "check_idle_periods str_ts gpu_data gpu_id ins =
     (let idle_periods = close_ongoing gpu_data (idle_scan gpu_data [] None)
      in ins @ map (idle_insight str_ts gpu_id) idle_periods)"

subsection \<open>Memory bottlenecks\<close>

definition check_memory_bottlenecks ::
  "GPUStats list \<Rightarrow> int \<Rightarrow> PerformanceInsight list \<Rightarrow> PerformanceInsight list" where
  "check_memory_bottlenecks gpu_data gpu_id ins =
     (let potential_bottlenecks =
            filter (\<lambda>r. memory_pct r > 80 \<and> utilization r < 50) gpu_data
      in if potential_bottlenecks \<noteq> [] then
           ins @ [\<lparr>ins_timestamp = timestamp (last potential_bottlenecks),
                   severity = ''warning'',
                   message = ''GPU '' @ str_int gpu_id @ '' potential memory bottleneck detected'',
                   metric = ''memory_utilization_ratio'',
                   ins_value = series_mean (map memory_pct potential_bottlenecks),
                   threshold = 80,
                   suggestion = ''Consider optimizing memory access patterns or reducing memory footprint''\<rparr>]
         else ins)"

subsection \<open>The pipeline\<close>

definition analyze_gpu ::
  "(int \<Rightarrow> string) \<Rightarrow> config \<Rightarrow> GPUStats list \<Rightarrow> int \<Rightarrow> PerformanceInsight list
     \<Rightarrow> exn + PerformanceInsight list" where
  "analyze_gpu str_ts cfg gpu_data gpu_id ins =
     bind (check_utilization cfg gpu_data gpu_id ins) (\<lambda>ins1.
     bind (check_memory_usage cfg gpu_data gpu_id ins1) (\<lambda>ins2.
     bind (check_temperature cfg gpu_data gpu_id ins2) (\<lambda>ins3.
     bind (check_power_usage cfg gpu_data gpu_id ins3) (\<lambda>ins4.
     Inr (check_memory_bottlenecks gpu_data gpu_id
            (check_idle_periods str_ts gpu_data gpu_id ins4))))))"

text \<open>The loop \<open>for gpu_id in df['device_id'].unique()\<close>.\<close>

fun analyze_gpus ::
  "(int \<Rightarrow> string) \<Rightarrow> config \<Rightarrow> GPUStats list \<Rightarrow> int list \<Rightarrow> PerformanceInsight list
     \<Rightarrow> exn + PerformanceInsight list" where
  "analyze_gpus str_ts cfg df [] ins = Inr ins"
| "analyze_gpus str_ts cfg df (gpu_id # ids) ins =
     bind (analyze_gpu str_ts cfg (filter (\<lambda>r. device_id r = gpu_id) df) gpu_id ins)
          (analyze_gpus str_ts cfg df ids)"

text \<open>
  The data frame handed to \<open>analyze_profile\<close>: a frame that has the columns of
  \<open>GPUStats\<close>, given by its rows (there may be none, as after a filter), or a frame
  without columns, which is what \<open>pd.DataFrame([])\<close> builds from an empty list and on
  which \<open>df['device_id']\<close> raises \<open>KeyError\<close>. The index of a frame is taken to be
  free of duplicates, as it is for the frames that cli.py and dashboard.py build.
\<close>

datatype DataFrame = Rows "GPUStats list" | No_columns

definition analyze_profile ::
  "(int \<Rightarrow> string) \<Rightarrow> PerformanceAnalyzer \<Rightarrow> DataFrame \<Rightarrow> exn + PerformanceInsight list" where
  "analyze_profile str_ts a frame =
     (case frame of
        No_columns \<Rightarrow> Inl (KeyError ''device_id'')
      | Rows df \<Rightarrow> analyze_gpus str_ts (config a) df (unique (map device_id df)) [])"

section \<open>The profiler (profiler.py)\<close>

subsection \<open>Data\<close>

text \<open>
  What a monitor hands back before \<open>dataclasses.asdict\<close> is applied to it: a dataclass
  instance with its fields, or any other object. \<open>asdict\<close> raises \<open>TypeError\<close> on the
  latter; \<open>SystemMonitor.get_system_info\<close> of utils/system.py returns a plain
  dictionary, which is such an object.
\<close>

datatype 'a pyobj = Dataclass 'a | Plain

fun asdict :: "'a pyobj \<Rightarrow> exn + 'a" where
  "asdict (Dataclass x) = Inr x"
| "asdict Plain = Inl (TypeError ''asdict() should be called on dataclass instances'')"

text \<open>The comprehension \<open>[asdict(stat) for stat in gpu_stats]\<close>.\<close>

fun asdict_all :: "'a pyobj list \<Rightarrow> exn + 'a list" where
  "asdict_all [] = Inr []"
| "asdict_all (x # xs) = bind (asdict x) (\<lambda>d. bind (asdict_all xs) (\<lambda>ds. Inr (d # ds)))"

text \<open>
  The dictionary \<open>current_profile\<close>; \<open>'e\<close> and \<open>'s\<close> are the contents of an
  environment and of a system snapshot.
\<close>

record ('e, 's) profile =
  start_time :: string
  environment :: "'e option"
  system_info :: "'s option"
  gpu_stats :: "GPUStats list list"

text \<open>The dictionary \<open>_collect_sample\<close> returns.\<close>

record 's sample =
  sample_timestamp :: string
  sample_system_info :: 's
  sample_gpu_stats :: "GPUStats list"

text \<open>
  Records of the logger. The message of a collected sample prints the list of the
  utilizations, kept here as the list itself.
\<close>

datatype log_record =
    INFO string
  | ERROR string
  | INFO_collected "real list"

text \<open>The calls made to the collaborators, in order.\<close>

datatype call =
    Call_get_environment_info
  | Call_get_system_info
  | Call_get_all_gpu_stats
  | Call_save_profile

text \<open>
  The state of a \<open>GPUProfiler\<close>. \<open>logged\<close> is what the logger has received,
  \<open>called\<close> the calls made so far (the source keeps no such list; it is there to state
  how often something is requested), \<open>written\<close> the profiles that reached a file.
\<close>

record ('e, 's) GPUProfiler =
  sampling_interval :: real
  current_profile :: "('e, 's) profile"
  logged :: "log_record list"
  called :: "call list"
  written :: "('e, 's) profile list"

definition GPUProfiler_init :: "real \<Rightarrow> string \<Rightarrow> ('e, 's) GPUProfiler" where
  "GPUProfiler_init interval now_iso =
     \<lparr>sampling_interval = interval,
      current_profile = \<lparr>start_time = now_iso, environment = None,
                         system_info = None, gpu_stats = []\<rparr>,
      logged = [], called = [], written = []\<rparr>"

text \<open>
  What the outside world answers during one pass of the loop: the results of the three
  monitors (read only if the call is made), \<open>datetime.now().isoformat()\<close>, the reading
  of \<open>time.time()\<close> at the duration check, and whether \<open>time.sleep\<close> is interrupted.
\<close>

record ('e, 's) tick =
  env_result :: "exn + 'e pyobj"
  sys_result :: "exn + 's pyobj"
  gpu_result :: "exn + GPUStats pyobj list"
  now_iso :: string
  clock :: real
  sleep_result :: "exn option"

definition logger :: "log_record \<Rightarrow> ('e, 's) GPUProfiler \<Rightarrow> ('e, 's) GPUProfiler" where
  "logger r st = st\<lparr>logged := logged st @ [r]\<rparr>"

definition calling :: "call \<Rightarrow> ('e, 's) GPUProfiler \<Rightarrow> ('e, 's) GPUProfiler" where
  "calling c st = st\<lparr>called := called st @ [c]\<rparr>"

subsection \<open>Collecting one sample\<close>

text \<open>
  The body of the \<open>try\<close> of \<open>_collect_sample\<close>: each assignment to
  \<open>current_profile\<close> happens as soon as its right-hand side has been computed.
\<close>

definition collect_try ::
  "('e, 's) tick \<Rightarrow> ('e, 's) GPUProfiler \<Rightarrow> (exn + 's sample) \<times> ('e, 's) GPUProfiler" where
  "collect_try io st =
     (let (r1, st1) =
        (if environment (current_profile st) = None then
           (case bind (env_result io) asdict of
              Inl e \<Rightarrow> (Inl e, calling Call_get_environment_info st)
            | Inr env \<Rightarrow>
                (Inr (), (calling Call_get_environment_info st)
                   \<lparr>current_profile := (current_profile st)\<lparr>environment := Some env\<rparr>\<rparr>))
         else (Inr (), st))
      in case r1 of
        Inl e \<Rightarrow> (Inl e, st1)
      | Inr _ \<Rightarrow>
          (let st2 = calling Call_get_system_info st1 in
           case bind (sys_result io) asdict of
             Inl e \<Rightarrow> (Inl e, st2)
           | Inr sysd \<Rightarrow>
               (let st3 = st2\<lparr>current_profile :=
                               (current_profile st2)\<lparr>system_info := Some sysd\<rparr>\<rparr>;
                    st4 = calling Call_get_all_gpu_stats st3
                in case bind (gpu_result io) asdict_all of
                     Inl e \<Rightarrow> (Inl e, st4)
                   | Inr gs \<Rightarrow>
                       (Inr \<lparr>sample_timestamp = now_iso io,
                             sample_system_info = sysd,
                             sample_gpu_stats = gs\<rparr>,
                        st4\<lparr>current_profile :=
                              (current_profile st4)\<lparr>gpu_stats :=
                                 gpu_stats (current_profile st4) @ [gs]\<rparr>\<rparr>))))"

text \<open>
  \<open>_collect_sample\<close>: \<open>except Exception\<close> logs and returns \<open>None\<close>; an exception
  that is not an \<open>Exception\<close> goes on to the caller.
\<close>

definition collect_sample ::
  "('e, 's) tick \<Rightarrow> ('e, 's) GPUProfiler
     \<Rightarrow> (exn + 's sample option) \<times> ('e, 's) GPUProfiler" where
  "collect_sample io st =
     (case collect_try io st of
        (Inr smp, st') \<Rightarrow> (Inr (Some smp), st')
      | (Inl e, st') \<Rightarrow>
          (if is_Exception e
           then (Inr None, logger (ERROR (''Error collecting sample: '' @ str_exn e)) st')
           else (Inl e, st')))"

subsection \<open>Saving\<close>

text \<open>
  \<open>_save_profile\<close>. \<open>output_file\<close> is the name computed from the clock and
  \<open>write_result\<close> what opening the file and \<open>json.dump\<close> do: nothing, or an exception.
  \<open>written\<close> collects the profiles that were written in full; a \<open>json.dump\<close> that
  raises midway has opened the file already and leaves a truncated one behind, which
  \<open>written\<close> does not record.
\<close>

record save_io =
  output_file :: string
  write_result :: "exn option"

definition save_profile ::
  "save_io \<Rightarrow> ('e, 's) GPUProfiler \<Rightarrow> exn option \<times> ('e, 's) GPUProfiler" where
  "save_profile sv st =
     (let st1 = calling Call_save_profile st in
      case write_result sv of
        None \<Rightarrow>
          (None, logger (INFO (''Profile saved to '' @ output_file sv))
                     (st1\<lparr>written := written st1 @ [current_profile st1]\<rparr>))
      | Some e \<Rightarrow>
          (if is_Exception e
           then (None, logger (ERROR (''Error saving profile: '' @ str_exn e)) st1)
           else (Some e, st1)))"

subsection \<open>The loop\<close>

text \<open>
  The test \<open>duration and (time.time() - start_time) >= duration\<close>: \<open>None\<close> and
  \<open>0.0\<close> are both false in Python.
\<close>

definition duration_elapsed :: "real option \<Rightarrow> real \<Rightarrow> real \<Rightarrow> bool" where
  "duration_elapsed duration start_clock now =
     (case duration of
        None \<Rightarrow> False
      | Some d \<Rightarrow> d \<noteq> 0 \<and> now - start_clock \<ge> d)"

text \<open>\<open>time.sleep\<close> refuses a negative length.\<close>

definition sleep :: "real \<Rightarrow> exn option \<Rightarrow> exn option" where
  "sleep secs interrupted =
     (if secs < 0 then Some (ValueError ''sleep length must be non-negative'')
      else interrupted)"

datatype loop_exit = Break | Raise exn

text \<open>
  The \<open>while True\<close> loop, one pass for each answer of the outside world. The result
  \<open>None\<close> means that the loop is still running when the answers are used up.
\<close>

fun sampling_loop ::
  "real option \<Rightarrow> real \<Rightarrow> ('e, 's) tick list \<Rightarrow> ('e, 's) GPUProfiler
     \<Rightarrow> loop_exit option \<times> ('e, 's) GPUProfiler" where
  "sampling_loop duration start_clock [] st = (None, st)"
| "sampling_loop duration start_clock (io # ios) st =
     (case collect_sample io st of
        (Inl e, st1) \<Rightarrow> (Some (Raise e), st1)
      | (Inr smp, st1) \<Rightarrow>
          (let st2 = (case smp of
                        Some s \<Rightarrow> logger (INFO_collected (map utilization (sample_gpu_stats s))) st1
                      | None \<Rightarrow> st1)
           in if duration_elapsed duration start_clock (clock io) then (Some Break, st2)
              else (case sleep (sampling_interval st2) (sleep_result io) of
                      Some e \<Rightarrow> (Some (Raise e), st2)
                    | None \<Rightarrow> sampling_loop duration start_clock ios st2)))"

datatype outcome = Returned | Raised exn

text \<open>
  \<open>start_profiling\<close>: the loop, the two \<open>except\<close> clauses and the \<open>finally\<close>
  clause. An exception leaving \<open>_save_profile\<close> replaces the pending one.
\<close>

definition start_profiling ::
  "real option \<Rightarrow> real \<Rightarrow> ('e, 's) tick list \<Rightarrow> save_io \<Rightarrow> ('e, 's) GPUProfiler
     \<Rightarrow> outcome option \<times> ('e, 's) GPUProfiler" where
  "start_profiling duration start_clock ios sv st =
     (case sampling_loop duration start_clock ios (logger (INFO ''Starting GPU profiling...'') st) of
        (None, st1) \<Rightarrow> (None, st1)
      | (Some ex, st1) \<Rightarrow>
          (let (pending, st2) =
             (case ex of
                Break \<Rightarrow> (None, st1)
              | Raise e \<Rightarrow>
                  (if e = KeyboardInterrupt
                   then (None, logger (INFO ''Profiling interrupted by user'') st1)
                   else if is_Exception e
                   then (None, logger (ERROR (''Error during profiling: '' @ str_exn e)) st1)
                   else (Some e, st1)))
           in case save_profile sv st2 of
                (Some e, st3) \<Rightarrow> (Some (Raised e), st3)
              | (None, st3) \<Rightarrow>
                  (Some (case pending of None \<Rightarrow> Returned | Some e \<Rightarrow> Raised e),
                   logger (INFO ''Profiling completed'') st3)))"

section \<open>Reference definitions and example inputs\<close>

text \<open>
  The thresholds that cli.py uses when no configuration file is found.
\<close>

definition default_config :: config where
  "default_config =
     [''alerts'' \<mapsto>
       [''gpu'' \<mapsto>
         [''utilization'' \<mapsto> [''warning'' \<mapsto> 90, ''critical'' \<mapsto> 95],
          ''memory'' \<mapsto> [''warning'' \<mapsto> 85, ''critical'' \<mapsto> 90],
          ''temperature'' \<mapsto> [''warning'' \<mapsto> 80, ''critical'' \<mapsto> 85],
          ''power'' \<mapsto> [''warning'' \<mapsto> 90, ''critical'' \<mapsto> 95]]]]"

text \<open>
  The idle runs of a series in the words of the specification: a run starts at a sample
  below the idle threshold that no run contains yet, it takes in the samples that follow
  while they stay below the threshold, and it ends at the sample that closes it (the
  first one at or above the threshold) or, if there is none, at the last sample of the
  series. Each run is given as its start and its end.
\<close>

function idle_runs :: "GPUStats list \<Rightarrow> (int \<times> int) list" where
  "idle_runs [] = []"
| "idle_runs (r # rs) =
     (if utilization r < idle_threshold then
        (case dropWhile (\<lambda>x. utilization x < idle_threshold) rs of
           [] \<Rightarrow> [(timestamp r, timestamp (last (r # rs)))]
         | c # rest \<Rightarrow> (timestamp r, timestamp c) # idle_runs rest)
      else idle_runs rs)"
  by pat_completeness auto
termination
proof (relation "measure length")
  fix r :: GPUStats and rs :: "GPUStats list" and c rest
  assume "dropWhile (\<lambda>x. utilization x < idle_threshold) rs = c # rest"
  then have "length (c # rest) \<le> length rs"
    using length_dropWhile_le [of "\<lambda>x. utilization x < idle_threshold" rs] by simp
  then show "(rest, r # rs) \<in> measure length" by simp
qed simp_all

text \<open>
  The scan result closed against a given last timestamp (\<open>close_ongoing\<close> with the
  timestamp already read).
\<close>

definition finish :: "int \<Rightarrow> (int \<times> int) list \<times> int option \<Rightarrow> (int \<times> int) list" where
  "finish l scanned =
     (case snd scanned of
        Some start \<Rightarrow> (if l - start \<ge> min_idle_duration then fst scanned @ [(start, l)] else fst scanned)
      | None \<Rightarrow> fst scanned)"

text \<open>Rows for the examples: a timestamp with a utilization, and with a memory use.\<close>

definition row :: "int \<Rightarrow> real \<Rightarrow> GPUStats" where
  "row t u = \<lparr>timestamp = t, device_id = 0, gpu_name = ''Test GPU'', utilization = u,
              memory_used = 8000, memory_total = 10000, temperature = 60, power_usage = 50\<rparr>"

definition mrow :: "int \<Rightarrow> real \<Rightarrow> int \<Rightarrow> GPUStats" where
  "mrow t u m = \<lparr>timestamp = t, device_id = 0, gpu_name = ''Test GPU'', utilization = u,
              memory_used = m, memory_total = 10000, temperature = 60, power_usage = 50\<rparr>"

text \<open>A configuration in which the critical threshold of memory is missing.\<close>

definition config_without_memory_critical :: config where
  "config_without_memory_critical =
     [''alerts'' \<mapsto>
       [''gpu'' \<mapsto>
         [''utilization'' \<mapsto> [''warning'' \<mapsto> 90, ''critical'' \<mapsto> 95],
          ''memory'' \<mapsto> [''warning'' \<mapsto> 85],
          ''temperature'' \<mapsto> [''warning'' \<mapsto> 80, ''critical'' \<mapsto> 85],
          ''power'' \<mapsto> [''warning'' \<mapsto> 90, ''critical'' \<mapsto> 95]]]]"

text \<open>The keys that are read on the way to a threshold.\<close>

definition config_keys :: "string set" where
  "config_keys = {''alerts'', ''gpu'', ''utilization'', ''memory'', ''temperature'', ''power'',
                  ''warning'', ''critical''}"

text \<open>
  Answers of the outside world for the examples, with strings for the contents of an
  environment and of a system snapshot: a pass in which every monitor answers with a
  dataclass instance; one in which the system monitor answers with a plain dictionary,
  as \<open>SystemMonitor.get_system_info\<close> does; one in which the GPU monitor raises; one in
  which the environment detector raises; and one in which the sleep is interrupted.
  Then a fresh profiler with an interval of one second, and a save that works and one
  that fails in \<open>json.dump\<close>.
\<close>

definition ok_tick :: "real \<Rightarrow> (string, string) tick" where
  "ok_tick t =
     \<lparr>env_result = Inr (Dataclass ''bare-metal''),
      sys_result = Inr (Dataclass ''test-host''),
      gpu_result = Inr [Dataclass (row 0 50)],
      now_iso = ''now'', clock = t, sleep_result = None\<rparr>"

definition plain_sys_tick :: "real \<Rightarrow> (string, string) tick" where
  "plain_sys_tick t = (ok_tick t)\<lparr>sys_result := Inr Plain\<rparr>"


definition env_fail_tick :: "real \<Rightarrow> (string, string) tick" where
  "env_fail_tick t = (ok_tick t)\<lparr>env_result := Inl (RuntimeError ''no hostname'')\<rparr>"

definition interrupted_tick :: "real \<Rightarrow> (string, string) tick" where
  "interrupted_tick t = (ok_tick t)\<lparr>sleep_result := Some KeyboardInterrupt\<rparr>"

definition profiler0 :: "(string, string) GPUProfiler" where
  "profiler0 = GPUProfiler_init 1 ''2024-01-01T00:00:00''"

definition save_ok :: save_io where
  "save_ok = \<lparr>output_file = ''profiles/profile.json'', write_result = None\<rparr>"

definition save_fails :: save_io where
  "save_fails = \<lparr>output_file = ''profiles/profile.json'',
                  write_result = Some (TypeError ''Object of type datetime is not JSON serializable'')\<rparr>"

section \<open>Properties of the analyzer\<close>

subsection \<open>Auxiliary facts\<close>

lemma series_max_Max:
  assumes "xs \<noteq> []"
  shows "series_max xs = Max (set xs)"
proof (cases xs)
  case Nil
  with assms show ?thesis by simp
next
  case (Cons a as)
  then show ?thesis
    using Max.set_eq_fold [of a as] by (simp add: series_max_def)
qed

lemma default_thresholds:
  "alert_threshold default_config ''utilization'' ''warning'' = Inr 90"
  "alert_threshold default_config ''utilization'' ''critical'' = Inr 95"
  by (simp_all add: alert_threshold_def getitem_def default_config_def)

lemma close_ongoing_finish: "close_ongoing gpu_data sc = finish (timestamp (last gpu_data)) sc"
  by (simp add: close_ongoing_def finish_def Let_def split: option.splits)

lemma idle_scan_skip:
  "idle_scan rows acc (Some s) =
     idle_scan (dropWhile (\<lambda>x. utilization x < idle_threshold) rows) acc (Some s)"
  by (induction rows) simp_all

lemma last_after_split:
  "xs = ys @ c # rest \<Longrightarrow> rest \<noteq> [] \<longrightarrow> last (r # xs) = last rest"
  by simp

lemma finish_idle_scan:
  "(rows \<noteq> [] \<longrightarrow> l = timestamp (last rows)) \<Longrightarrow>
   finish l (idle_scan rows acc None) =
     acc @ filter (\<lambda>p. snd p - fst p \<ge> min_idle_duration) (idle_runs rows)"
proof (induction rows arbitrary: acc rule: idle_runs.induct)
  case 1
  then show ?case by (simp add: finish_def)
next
  case (2 r rs)
  let ?idle = "\<lambda>x. utilization x < idle_threshold"
  show ?case
  proof (cases "utilization r < idle_threshold")
    case False
    have lr: "rs \<noteq> [] \<longrightarrow> l = timestamp (last rs)"
      using "2.prems" by simp
    show ?thesis
      using False "2.IH"(2) [OF False lr, of acc] by simp
  next
    case True
    note idle = this
    have l: "l = timestamp (last (r # rs))" using "2.prems" by simp
    have step: "idle_scan (r # rs) acc None = idle_scan (dropWhile ?idle rs) acc (Some (timestamp r))"
      using idle idle_scan_skip [of rs acc "timestamp r"] by simp
    show ?thesis
    proof (cases "dropWhile ?idle rs")
      case Nil
      have scan: "idle_scan (r # rs) acc None = (acc, Some (timestamp r))"
        unfolding step Nil by simp
      have runs: "idle_runs (r # rs) = [(timestamp r, timestamp (last (r # rs)))]"
        using idle by (simp add: Nil)
      show ?thesis
        using l by (simp add: scan runs finish_def del: idle_scan.simps idle_runs.simps)
    next
      case (Cons c rest)
      then have c: "\<not> utilization c < idle_threshold"
        using hd_dropWhile [of ?idle rs] by simp
      have "rs = takeWhile ?idle rs @ c # rest"
        using Cons takeWhile_dropWhile_id [of ?idle rs] by simp
      then have "rest \<noteq> [] \<longrightarrow> last (r # rs) = last rest"
        by (rule last_after_split)
      then have lr: "rest \<noteq> [] \<longrightarrow> l = timestamp (last rest)"
        using l by simp
      have scan: "idle_scan (r # rs) acc None =
                    (if timestamp c - timestamp r \<ge> min_idle_duration
                     then idle_scan rest (acc @ [(timestamp r, timestamp c)]) None
                     else idle_scan rest acc None)"
        unfolding step Cons using c by simp
      have runs: "idle_runs (r # rs) = (timestamp r, timestamp c) # idle_runs rest"
        using idle by (simp add: Cons)
      show ?thesis
        using "2.IH"(1) [OF idle Cons lr]
        by (simp add: scan runs del: idle_scan.simps idle_runs.simps)
    qed
  qed
qed

subsection \<open>The utilization check\<close>

text \<open>
  C3. Let \<open>W\<close> and \<open>C\<close> be the warning and the critical threshold of utilization.
  If no sample has a utilization above \<open>W\<close>, the check adds no insight. Otherwise it
  adds exactly one, with metric utilization, whose value is the maximum utilization of
  the samples above \<open>W\<close>, whose timestamp is that of the last of these samples, and
  which is critical with threshold \<open>C\<close> when that maximum reaches \<open>C\<close>, and a warning
  with threshold \<open>W\<close> otherwise. Nothing is asked of the order of \<open>W\<close> and \<open>C\<close>, so
  the statement holds in particular when \<open>W \<le> C\<close>.
\<close>

theorem check_utilization_spec:
  assumes W: "alert_threshold cfg ''utilization'' ''warning'' = Inr W"
      and C: "alert_threshold cfg ''utilization'' ''critical'' = Inr C"
  shows "let high = filter (\<lambda>r. utilization r > W) gpu_data;
             m = Max (set (map utilization high))
         in (high = [] \<longrightarrow> check_utilization cfg gpu_data gpu_id ins = Inr ins) \<and>
            (high \<noteq> [] \<longrightarrow>
               (\<exists>i. check_utilization cfg gpu_data gpu_id ins = Inr (ins @ [i]) \<and>
                    metric i = ''utilization'' \<and>
                    ins_value i = m \<and>
                    ins_timestamp i = timestamp (last high) \<and>
                    (m \<ge> C \<longrightarrow> severity i = ''critical'' \<and> threshold i = C) \<and>
                    (\<not> m \<ge> C \<longrightarrow> severity i = ''warning'' \<and> threshold i = W)))"
proof -
  define high where "high = filter (\<lambda>r. utilization r > W) gpu_data"
  show ?thesis
  proof (cases "high = []")
    case True
    then show ?thesis
      using W C by (simp add: check_utilization_def high_def)
  next
    case False
    then have m: "series_max (map utilization high) = Max (set (map utilization high))"
      by (simp add: series_max_Max)
    show ?thesis
      using False W C m unfolding high_def [symmetric] Let_def
      by (simp add: check_utilization_def Let_def flip: high_def)
  qed
qed

theorem check_utilization_spec_witness:
  "check_utilization default_config [row 0 96, row 1 50, row 2 92] 7 [] =
     Inr [\<lparr>ins_timestamp = 2, severity = ''critical'',
           message = ''GPU 7 utilization critically high'', metric = ''utilization'',
           ins_value = 96, threshold = 95,
           suggestion = ''Consider distributing workload across multiple GPUs or optimizing compute operations''\<rparr>]"
  using check_utilization_spec [OF default_thresholds, of "[row 0 96, row 1 50, row 2 92]" 7 "[]"]
  by (simp add: row_def check_utilization_def default_thresholds series_max_def str_int_def str_nat.simps)

subsection \<open>Idle periods\<close>



text \<open>
  C4. The idle check adds one insight for each idle run of the series that lasts at
  least five minutes and none for a shorter one, in the order of the runs; the insight
  has severity info and the end of the run as its timestamp. The length of a run is
  taken as the source takes it, from the first idle sample to the sample that closes
  the run (or to the last sample of the series for a run still open there).
\<close>

theorem check_idle_periods_runs:
  "check_idle_periods str_ts gpu_data gpu_id ins =
     ins @ map (idle_insight str_ts gpu_id)
             (filter (\<lambda>run. snd run - fst run \<ge> 5 * 60 * 1000000) (idle_runs gpu_data)) \<and>
   severity (idle_insight str_ts gpu_id run) = ''info'' \<and>
   ins_timestamp (idle_insight str_ts gpu_id run) = snd run"
  using finish_idle_scan [of gpu_data "timestamp (last gpu_data)" "[]"]
  by (simp add: check_idle_periods_def close_ongoing_finish idle_insight_def min_idle_duration_def)

theorem check_idle_periods_runs_witness:
  "idle_runs [row 0 50, row 1000000 5, row 2000000 5, row 300999999 50] = [(1000000, 300999999)] \<and>
   check_idle_periods str_int [row 0 50, row 1000000 5, row 2000000 5, row 300999999 50] 0 [] = [] \<and>
   idle_runs [row 0 50, row 1000000 5, row 2000000 5, row 301000000 50] = [(1000000, 301000000)] \<and>
   map ins_timestamp
     (check_idle_periods str_int [row 0 50, row 1000000 5, row 2000000 5, row 301000000 50] 0 [])
     = [301000000]"
  using check_idle_periods_runs [of str_int "[row 0 50, row 1000000 5, row 2000000 5, row 300999999 50]" 0 "[]"]
        check_idle_periods_runs [of str_int "[row 0 50, row 1000000 5, row 2000000 5, row 301000000 50]" 0 "[]"]
  by (simp add: row_def idle_threshold_def idle_insight_def)

subsection \<open>Memory bottlenecks\<close>

text \<open>
  C6. Take the samples whose memory percentage is above 80 while their utilization is
  below 50. If there is none, the bottleneck check adds no insight; otherwise it adds
  exactly one warning, with the timestamp of the last such sample and, as its value,
  the mean of the memory percentage over these samples only.
\<close>

theorem check_memory_bottlenecks_spec:
  assumes "\<forall>r \<in> set gpu_data. memory_total r \<noteq> 0"
  shows "let both = filter (\<lambda>r. memory_pct r > 80 \<and> utilization r < 50) gpu_data
         in (both = [] \<longrightarrow> check_memory_bottlenecks gpu_data gpu_id ins = ins) \<and>
            (both \<noteq> [] \<longrightarrow>
               (\<exists>i. check_memory_bottlenecks gpu_data gpu_id ins = ins @ [i] \<and>
                    severity i = ''warning'' \<and>
                    ins_timestamp i = timestamp (last both) \<and>
                    ins_value i = (\<Sum>r\<leftarrow>both. memory_pct r) / real (length both)))"
  by (simp add: check_memory_bottlenecks_def Let_def series_mean_def)

theorem check_memory_bottlenecks_spec_witness:
  "map (\<lambda>i. (ins_timestamp i, severity i, ins_value i))
     (check_memory_bottlenecks [mrow 0 30 9000, mrow 1 30 5000, mrow 2 40 8500, mrow 3 80 9500] 0 [])
     = [(2, ''warning'', 175 / 2)] \<and>
   series_mean (map memory_pct [mrow 0 30 9000, mrow 1 30 5000, mrow 2 40 8500, mrow 3 80 9500]) = 80"
  using check_memory_bottlenecks_spec
          [of "[mrow 0 30 9000, mrow 1 30 5000, mrow 2 40 8500, mrow 3 80 9500]" 0 "[]"]
  by (simp add: check_memory_bottlenecks_def memory_pct_def mrow_def series_mean_def)

subsection \<open>Missing thresholds\<close>

lemma alert_threshold_raises:
  "alert_threshold cfg m level = Inl e \<Longrightarrow>
   e = KeyError ''alerts'' \<or> e = KeyError ''gpu'' \<or> e = KeyError m \<or> e = KeyError level"
  by (auto simp: alert_threshold_def getitem_def split: option.splits)

lemma alert_threshold_missing:
  "\<not> (\<exists>alerts gpu per_metric v. cfg ''alerts'' = Some alerts \<and> alerts ''gpu'' = Some gpu \<and>
        gpu m = Some per_metric \<and> per_metric level = Some v) \<Longrightarrow>
   \<exists>e. alert_threshold cfg m level = Inl e"
  by (auto simp: alert_threshold_def getitem_def split: option.splits)

lemma check_utilization_raises:
  assumes r: "check_utilization cfg gpu_data gpu_id ins = Inl e"
  shows "\<exists>k \<in> config_keys. e = KeyError k"
proof (cases "alert_threshold cfg ''utilization'' ''warning''")
  case (Inl a)
  then show ?thesis
    using alert_threshold_raises [OF Inl] r
    by (auto simp: check_utilization_def config_keys_def)
next
  case W: (Inr w)
  show ?thesis
  proof (cases "alert_threshold cfg ''utilization'' ''critical''")
    case (Inl a)
    then show ?thesis
      using alert_threshold_raises [OF Inl] r W
      by (auto simp: check_utilization_def config_keys_def)
  next
    case (Inr c)
    with r W show ?thesis
      by (simp add: check_utilization_def Let_def split: if_splits)
  qed
qed

lemma check_memory_usage_raises:
  assumes r: "check_memory_usage cfg gpu_data gpu_id ins = Inl e"
  shows "\<exists>k \<in> config_keys. e = KeyError k"
proof (cases "alert_threshold cfg ''memory'' ''warning''")
  case (Inl a)
  then show ?thesis
    using alert_threshold_raises [OF Inl] r
    by (auto simp: check_memory_usage_def config_keys_def)
next
  case W: (Inr w)
  show ?thesis
  proof (cases "alert_threshold cfg ''memory'' ''critical''")
    case (Inl a)
    then show ?thesis
      using alert_threshold_raises [OF Inl] r W
      by (auto simp: check_memory_usage_def config_keys_def)
  next
    case (Inr c)
    with r W show ?thesis
      by (simp add: check_memory_usage_def Let_def split: if_splits)
  qed
qed

lemma check_temperature_raises:
  assumes r: "check_temperature cfg gpu_data gpu_id ins = Inl e"
  shows "\<exists>k \<in> config_keys. e = KeyError k"
proof (cases "alert_threshold cfg ''temperature'' ''warning''")
  case (Inl a)
  then show ?thesis
    using alert_threshold_raises [OF Inl] r
    by (auto simp: check_temperature_def config_keys_def)
next
  case W: (Inr w)
  show ?thesis
  proof (cases "alert_threshold cfg ''temperature'' ''critical''")
    case (Inl a)
    then show ?thesis
      using alert_threshold_raises [OF Inl] r W
      by (auto simp: check_temperature_def config_keys_def)
  next
    case (Inr c)
    with r W show ?thesis
      by (simp add: check_temperature_def Let_def split: if_splits)
  qed
qed

lemma check_power_usage_raises:
  assumes r: "check_power_usage cfg gpu_data gpu_id ins = Inl e"
  shows "\<exists>k \<in> config_keys. e = KeyError k"
proof (cases "alert_threshold cfg ''power'' ''warning''")
  case (Inl a)
  then show ?thesis
    using alert_threshold_raises [OF Inl] r
    by (auto simp: check_power_usage_def config_keys_def)
next
  case W: (Inr w)
  show ?thesis
  proof (cases "alert_threshold cfg ''power'' ''critical''")
    case (Inl a)
    then show ?thesis
      using alert_threshold_raises [OF Inl] r W
      by (auto simp: check_power_usage_def config_keys_def)
  next
    case (Inr c)
    with r W show ?thesis
      by (simp add: check_power_usage_def Let_def split: if_splits)
  qed
qed

lemma analyze_gpu_raises:
  assumes "analyze_gpu str_ts cfg gpu_data gpu_id ins = Inl e"
  shows "\<exists>k \<in> config_keys. e = KeyError k"
proof (cases "check_utilization cfg gpu_data gpu_id ins")
  case (Inl a)
  with assms show ?thesis
    using check_utilization_raises [OF Inl] by (simp add: analyze_gpu_def)
next
  case u: (Inr ins1)
  show ?thesis
  proof (cases "check_memory_usage cfg gpu_data gpu_id ins1")
    case (Inl a)
    with assms u show ?thesis
      using check_memory_usage_raises [OF Inl] by (simp add: analyze_gpu_def)
  next
    case me: (Inr ins2)
    show ?thesis
    proof (cases "check_temperature cfg gpu_data gpu_id ins2")
      case (Inl a)
      with assms u me show ?thesis
        using check_temperature_raises [OF Inl] by (simp add: analyze_gpu_def)
    next
      case t: (Inr ins3)
      show ?thesis
      proof (cases "check_power_usage cfg gpu_data gpu_id ins3")
        case (Inl a)
        with assms u me t show ?thesis
          using check_power_usage_raises [OF Inl] by (simp add: analyze_gpu_def)
      next
        case (Inr ins4)
        with assms u me t show ?thesis by (simp add: analyze_gpu_def)
      qed
    qed
  qed
qed

lemma check_utilization_missing:
  "alert_threshold cfg ''utilization'' level = Inl e \<Longrightarrow> level = ''warning'' \<or> level = ''critical'' \<Longrightarrow>
   \<exists>e'. check_utilization cfg gpu_data gpu_id ins = Inl e'"
  by (cases "alert_threshold cfg ''utilization'' ''warning''") (auto simp: check_utilization_def)

lemma check_memory_usage_missing:
  "alert_threshold cfg ''memory'' level = Inl e \<Longrightarrow> level = ''warning'' \<or> level = ''critical'' \<Longrightarrow>
   \<exists>e'. check_memory_usage cfg gpu_data gpu_id ins = Inl e'"
  by (cases "alert_threshold cfg ''memory'' ''warning''") (auto simp: check_memory_usage_def)

lemma check_temperature_missing:
  "alert_threshold cfg ''temperature'' level = Inl e \<Longrightarrow> level = ''warning'' \<or> level = ''critical'' \<Longrightarrow>
   \<exists>e'. check_temperature cfg gpu_data gpu_id ins = Inl e'"
  by (cases "alert_threshold cfg ''temperature'' ''warning''") (auto simp: check_temperature_def)

lemma check_power_usage_missing:
  "alert_threshold cfg ''power'' level = Inl e \<Longrightarrow> level = ''warning'' \<or> level = ''critical'' \<Longrightarrow>
   \<exists>e'. check_power_usage cfg gpu_data gpu_id ins = Inl e'"
  by (cases "alert_threshold cfg ''power'' ''warning''") (auto simp: check_power_usage_def)

lemma analyze_gpu_missing:
  assumes "m \<in> {''utilization'', ''memory'', ''temperature'', ''power''}"
      and "level = ''warning'' \<or> level = ''critical''"
      and "alert_threshold cfg m level = Inl e"
  shows "\<exists>e'. analyze_gpu str_ts cfg gpu_data gpu_id ins = Inl e'"
proof (cases "check_utilization cfg gpu_data gpu_id ins")
  case (Inl a)
  then show ?thesis by (simp add: analyze_gpu_def)
next
  case u: (Inr ins1)
  show ?thesis
  proof (cases "check_memory_usage cfg gpu_data gpu_id ins1")
    case (Inl a)
    then show ?thesis by (simp add: analyze_gpu_def u)
  next
    case me: (Inr ins2)
    show ?thesis
    proof (cases "check_temperature cfg gpu_data gpu_id ins2")
      case (Inl a)
      then show ?thesis by (simp add: analyze_gpu_def u me)
    next
      case t: (Inr ins3)
      show ?thesis
      proof (cases "check_power_usage cfg gpu_data gpu_id ins3")
        case (Inl a)
        then show ?thesis by (simp add: analyze_gpu_def u me t)
      next
        case p: (Inr ins4)
        from assms(1) consider "m = ''utilization''" | "m = ''memory''"
          | "m = ''temperature''" | "m = ''power''" by auto
        then have False
        proof cases
          case 1
          then show False
            using check_utilization_missing [of cfg level e gpu_data gpu_id ins] assms(2,3) u by auto
        next
          case 2
          then show False
            using check_memory_usage_missing [of cfg level e gpu_data gpu_id ins1] assms(2,3) me by auto
        next
          case 3
          then show False
            using check_temperature_missing [of cfg level e gpu_data gpu_id ins2] assms(2,3) t by auto
        next
          case 4
          then show False
            using check_power_usage_missing [of cfg level e gpu_data gpu_id ins3] assms(2,3) p by auto
        qed
        then show ?thesis ..
      qed
    qed
  qed
qed

text \<open>
  C8, as the source has it. Constructing the analyzer never reports an error, whatever
  the configuration is: with the critical threshold of memory missing, the constructor
  returns the analyzer, and the \<open>KeyError\<close> comes out of the memory check while a
  profile is analysed.
\<close>

theorem config_error_at_construction_counterexample:
  "PerformanceAnalyzer_init config_without_memory_critical =
     Inr \<lparr>config = config_without_memory_critical, insights = []\<rparr> \<and>
   analyze_profile str_int \<lparr>config = config_without_memory_critical, insights = []\<rparr>
     (Rows [row 0 50]) = Inl (KeyError ''critical'')"
  by (simp add: PerformanceAnalyzer_init_def analyze_profile_def analyze_gpu_def
        check_utilization_def check_memory_usage_def alert_threshold_def getitem_def
        config_without_memory_critical_def row_def)

text \<open>
  C8, amended. The constructor returns the analyzer for every configuration. When the
  warning or the critical threshold of one of the four metrics is missing from the
  mapping, at whatever level of it, the analysis of a frame with at least one row
  raises a \<open>KeyError\<close> for one of the keys read on the way to a threshold: the error
  comes from a lookup inside a check, during the analysis.
\<close>

theorem config_error_raised_by_checks:
  "PerformanceAnalyzer_init cfg = Inr \<lparr>config = cfg, insights = []\<rparr> \<and>
   (m \<in> {''utilization'', ''memory'', ''temperature'', ''power''} \<and>
    (level = ''warning'' \<or> level = ''critical'') \<and>
    \<not> (\<exists>alerts gpu per_metric v.
          cfg ''alerts'' = Some alerts \<and> alerts ''gpu'' = Some gpu \<and>
          gpu m = Some per_metric \<and> per_metric level = Some v) \<and>
    df \<noteq> []
    \<longrightarrow> (\<exists>k \<in> config_keys.
           analyze_profile str_ts \<lparr>config = cfg, insights = []\<rparr> (Rows df) = Inl (KeyError k)))"
proof -
  have "\<exists>k \<in> config_keys.
          analyze_profile str_ts \<lparr>config = cfg, insights = []\<rparr> (Rows df) = Inl (KeyError k)"
    if m: "m \<in> {''utilization'', ''memory'', ''temperature'', ''power''}"
      and l: "level = ''warning'' \<or> level = ''critical''"
      and a: "\<not> (\<exists>alerts gpu per_metric v.
                  cfg ''alerts'' = Some alerts \<and> alerts ''gpu'' = Some gpu \<and>
                  gpu m = Some per_metric \<and> per_metric level = Some v)"
      and df: "df \<noteq> []"
  proof -
    obtain e where e: "alert_threshold cfg m level = Inl e"
      using alert_threshold_missing [of cfg m level] a by blast
    from df obtain g gs where ids: "unique (map device_id df) = g # gs"
      by (cases df) auto
    obtain e' where
      e': "analyze_gpu str_ts cfg (filter (\<lambda>r. device_id r = g) df) g [] = Inl e'"
      using analyze_gpu_missing [OF m l e] by blast
    obtain k where "k \<in> config_keys" "e' = KeyError k"
      using analyze_gpu_raises [OF e'] by blast
    then show ?thesis
      using e' by (auto simp add: analyze_profile_def ids)
  qed
  then show ?thesis
    by (simp add: PerformanceAnalyzer_init_def)
qed

theorem config_error_raised_by_checks_witness:
  "\<not> (\<exists>alerts gpu per_metric v.
          config_without_memory_critical ''alerts'' = Some alerts \<and> alerts ''gpu'' = Some gpu \<and>
          gpu ''memory'' = Some per_metric \<and> per_metric ''critical'' = Some v) \<and>
   (\<exists>k \<in> config_keys.
      analyze_profile str_int \<lparr>config = config_without_memory_critical, insights = []\<rparr>
        (Rows [row 0 50]) = Inl (KeyError k))"
proof -
  have missing: "\<not> (\<exists>alerts gpu per_metric v.
          config_without_memory_critical ''alerts'' = Some alerts \<and> alerts ''gpu'' = Some gpu \<and>
          gpu ''memory'' = Some per_metric \<and> per_metric ''critical'' = Some v)"
    by (auto simp add: config_without_memory_critical_def)
  show ?thesis
    using config_error_raised_by_checks
            [of config_without_memory_critical "''memory''" "''critical''" "[row 0 50]" str_int]
          missing
    by simp
qed

subsection \<open>Insights per metric\<close>

lemma check_utilization_shape:
  assumes "check_utilization cfg gpu_data gpu_id ins = Inr out"
  shows "\<exists>new. out = ins @ new \<and> length new \<le> 1 \<and>
           (\<forall>i \<in> set new. metric i = ''utilization'' \<and> severity i \<noteq> ''info'')"
proof (cases "alert_threshold cfg ''utilization'' ''warning''")
  case (Inl a)
  with assms show ?thesis by (simp add: check_utilization_def)
next
  case W: (Inr w)
  show ?thesis
  proof (cases "alert_threshold cfg ''utilization'' ''critical''")
    case (Inl a)
    with assms W show ?thesis by (simp add: check_utilization_def)
  next
    case (Inr c)
    with assms W show ?thesis
      by (auto simp add: check_utilization_def Let_def split: if_splits)
  qed
qed

lemma check_memory_usage_shape:
  assumes "check_memory_usage cfg gpu_data gpu_id ins = Inr out"
  shows "\<exists>new. out = ins @ new \<and> length new \<le> 1 \<and>
           (\<forall>i \<in> set new. metric i = ''memory'' \<and> severity i \<noteq> ''info'')"
proof (cases "alert_threshold cfg ''memory'' ''warning''")
  case (Inl a)
  with assms show ?thesis by (simp add: check_memory_usage_def)
next
  case W: (Inr w)
  show ?thesis
  proof (cases "alert_threshold cfg ''memory'' ''critical''")
    case (Inl a)
    with assms W show ?thesis by (simp add: check_memory_usage_def)
  next
    case (Inr c)
    with assms W show ?thesis
      by (auto simp add: check_memory_usage_def Let_def split: if_splits)
  qed
qed

lemma check_temperature_shape:
  assumes "check_temperature cfg gpu_data gpu_id ins = Inr out"
  shows "\<exists>new. out = ins @ new \<and> length new \<le> 1 \<and>
           (\<forall>i \<in> set new. metric i = ''temperature'' \<and> severity i \<noteq> ''info'')"
proof (cases "alert_threshold cfg ''temperature'' ''warning''")
  case (Inl a)
  with assms show ?thesis by (simp add: check_temperature_def)
next
  case W: (Inr w)
  show ?thesis
  proof (cases "alert_threshold cfg ''temperature'' ''critical''")
    case (Inl a)
    with assms W show ?thesis by (simp add: check_temperature_def)
  next
    case (Inr c)
    with assms W show ?thesis
      by (auto simp add: check_temperature_def Let_def split: if_splits)
  qed
qed

lemma check_power_usage_shape:
  assumes "check_power_usage cfg gpu_data gpu_id ins = Inr out"
  shows "\<exists>new. out = ins @ new \<and> length new \<le> 1 \<and>
           (\<forall>i \<in> set new. metric i = ''power'' \<and> severity i \<noteq> ''info'')"
proof (cases "alert_threshold cfg ''power'' ''warning''")
  case (Inl a)
  with assms show ?thesis by (simp add: check_power_usage_def)
next
  case W: (Inr w)
  show ?thesis
  proof (cases "alert_threshold cfg ''power'' ''critical''")
    case (Inl a)
    with assms W show ?thesis by (simp add: check_power_usage_def)
  next
    case (Inr c)
    with assms W show ?thesis
      by (auto simp add: check_power_usage_def Let_def split: if_splits)
  qed
qed

lemma check_memory_bottlenecks_shape:
  "\<exists>new. check_memory_bottlenecks gpu_data gpu_id ins = ins @ new \<and>
         (\<forall>i \<in> set new. metric i = ''memory_utilization_ratio'')"
  by (simp add: check_memory_bottlenecks_def Let_def)

lemma check_idle_periods_shape:
  "check_idle_periods str_ts gpu_data gpu_id ins =
     ins @ map (idle_insight str_ts gpu_id)
             (filter (\<lambda>p. snd p - fst p \<ge> min_idle_duration) (idle_runs gpu_data))"
  using finish_idle_scan [of gpu_data "timestamp (last gpu_data)" "[]"]
  by (simp add: check_idle_periods_def close_ongoing_finish)

lemma idle_insight_metric:
  "metric (idle_insight str_ts gpu_id p) = ''utilization'' \<and>
   severity (idle_insight str_ts gpu_id p) = ''info''"
  by (simp add: idle_insight_def)

text \<open>What one pass of the pipeline adds, piece by piece.\<close>

lemma analyze_gpu_shape:
  assumes "analyze_gpu str_ts cfg gpu_data gpu_id ins = Inr out"
  shows "\<exists>n1 n2 n3 n4 nb.
           out = ins @ n1 @ n2 @ n3 @ n4 @
                 map (idle_insight str_ts gpu_id)
                   (filter (\<lambda>p. snd p - fst p \<ge> min_idle_duration) (idle_runs gpu_data)) @ nb \<and>
           length n1 \<le> 1 \<and> (\<forall>i \<in> set n1. metric i = ''utilization'' \<and> severity i \<noteq> ''info'') \<and>
           length n2 \<le> 1 \<and> (\<forall>i \<in> set n2. metric i = ''memory'' \<and> severity i \<noteq> ''info'') \<and>
           length n3 \<le> 1 \<and> (\<forall>i \<in> set n3. metric i = ''temperature'' \<and> severity i \<noteq> ''info'') \<and>
           length n4 \<le> 1 \<and> (\<forall>i \<in> set n4. metric i = ''power'' \<and> severity i \<noteq> ''info'') \<and>
           (\<forall>i \<in> set nb. metric i = ''memory_utilization_ratio'')"
proof -
  from assms obtain ins1 where u: "check_utilization cfg gpu_data gpu_id ins = Inr ins1"
    by (cases "check_utilization cfg gpu_data gpu_id ins") (simp_all add: analyze_gpu_def)
  from assms u obtain ins2 where m: "check_memory_usage cfg gpu_data gpu_id ins1 = Inr ins2"
    by (cases "check_memory_usage cfg gpu_data gpu_id ins1") (simp_all add: analyze_gpu_def)
  from assms u m obtain ins3 where t: "check_temperature cfg gpu_data gpu_id ins2 = Inr ins3"
    by (cases "check_temperature cfg gpu_data gpu_id ins2") (simp_all add: analyze_gpu_def)
  from assms u m t obtain ins4 where p: "check_power_usage cfg gpu_data gpu_id ins3 = Inr ins4"
    by (cases "check_power_usage cfg gpu_data gpu_id ins3") (simp_all add: analyze_gpu_def)
  have out: "out = check_memory_bottlenecks gpu_data gpu_id
                     (check_idle_periods str_ts gpu_data gpu_id ins4)"
    using assms u m t p by (simp add: analyze_gpu_def)
  obtain n1 where n1: "ins1 = ins @ n1" "length n1 \<le> 1"
      "\<forall>i \<in> set n1. metric i = ''utilization'' \<and> severity i \<noteq> ''info''"
    using check_utilization_shape [OF u] by blast
  obtain n2 where n2: "ins2 = ins1 @ n2" "length n2 \<le> 1"
      "\<forall>i \<in> set n2. metric i = ''memory'' \<and> severity i \<noteq> ''info''"
    using check_memory_usage_shape [OF m] by blast
  obtain n3 where n3: "ins3 = ins2 @ n3" "length n3 \<le> 1"
      "\<forall>i \<in> set n3. metric i = ''temperature'' \<and> severity i \<noteq> ''info''"
    using check_temperature_shape [OF t] by blast
  obtain n4 where n4: "ins4 = ins3 @ n4" "length n4 \<le> 1"
      "\<forall>i \<in> set n4. metric i = ''power'' \<and> severity i \<noteq> ''info''"
    using check_power_usage_shape [OF p] by blast
  obtain nb where nb:
      "check_memory_bottlenecks gpu_data gpu_id (check_idle_periods str_ts gpu_data gpu_id ins4)
         = check_idle_periods str_ts gpu_data gpu_id ins4 @ nb"
      "\<forall>i \<in> set nb. metric i = ''memory_utilization_ratio''"
    using check_memory_bottlenecks_shape by blast
  have "out = ins @ n1 @ n2 @ n3 @ n4 @
                 map (idle_insight str_ts gpu_id)
                   (filter (\<lambda>p. snd p - fst p \<ge> min_idle_duration) (idle_runs gpu_data)) @ nb"
  proof -
    have "out = check_idle_periods str_ts gpu_data gpu_id ins4 @ nb"
      by (simp only: out nb(1))
    then show ?thesis
      by (simp add: check_idle_periods_shape n1(1) n2(1) n3(1) n4(1))
  qed
  with n1(2,3) n2(2,3) n3(2,3) n4(2,3) nb(2) show ?thesis by blast
qed

lemma filter_none: "\<forall>i \<in> set xs. \<not> P i \<Longrightarrow> filter P xs = []"
  by (induction xs) simp_all

lemma filter_all: "\<forall>i \<in> set xs. P i \<Longrightarrow> filter P xs = xs"
  by (induction xs) simp_all

text \<open>
  C5, as the source has it. The insights of the idle check carry the metric name
  utilization as well: a series with one sample at 96 percent followed by an idle
  period of more than five minutes gets two insights with that name from one analysis,
  a critical one and an info one.
\<close>

theorem at_most_one_insight_per_metric_counterexample:
  "(case analyze_gpu str_int default_config [row 0 96, row 1000000 5, row 400000000 5] 0 [] of
      Inl e \<Rightarrow> False
    | Inr out \<Rightarrow> map (\<lambda>i. (metric i, severity i)) out =
                   [(''utilization'', ''critical''), (''utilization'', ''info'')])"
  by (simp add: analyze_gpu_def check_utilization_def check_memory_usage_def
        check_temperature_def check_power_usage_def check_idle_periods_def
        check_memory_bottlenecks_def close_ongoing_def idle_insight_def
        alert_threshold_def getitem_def default_config_def row_def series_max_def
        memory_pct_def idle_threshold_def min_idle_duration_def)

text \<open>
  C5, amended. Among the insights that one analysis of a device series adds, at most
  one carries the metric name memory, at most one temperature, at most one power, and
  at most one carries the name utilization with a severity other than info. The
  insights named utilization with severity info are those of the idle check, one for
  each idle run of at least five minutes.
\<close>

theorem at_most_one_threshold_insight_per_metric:
  assumes "analyze_gpu str_ts cfg gpu_data gpu_id ins = Inr out"
  shows "length (filter (\<lambda>i. metric i = ''memory'') (drop (length ins) out)) \<le> 1 \<and>
         length (filter (\<lambda>i. metric i = ''temperature'') (drop (length ins) out)) \<le> 1 \<and>
         length (filter (\<lambda>i. metric i = ''power'') (drop (length ins) out)) \<le> 1 \<and>
         length (filter (\<lambda>i. metric i = ''utilization'' \<and> severity i \<noteq> ''info'')
                   (drop (length ins) out)) \<le> 1 \<and>
         length (filter (\<lambda>i. metric i = ''utilization'' \<and> severity i = ''info'')
                   (drop (length ins) out)) =
           length (filter (\<lambda>run. snd run - fst run \<ge> 5 * 60 * 1000000) (idle_runs gpu_data))"
proof -
  let ?idle = "map (idle_insight str_ts gpu_id)
                 (filter (\<lambda>p. snd p - fst p \<ge> min_idle_duration) (idle_runs gpu_data))"
  obtain n1 n2 n3 n4 nb where
    out: "out = ins @ n1 @ n2 @ n3 @ n4 @ ?idle @ nb"
    and n1: "length n1 \<le> 1" "\<forall>i \<in> set n1. metric i = ''utilization'' \<and> severity i \<noteq> ''info''"
    and n2: "length n2 \<le> 1" "\<forall>i \<in> set n2. metric i = ''memory'' \<and> severity i \<noteq> ''info''"
    and n3: "length n3 \<le> 1" "\<forall>i \<in> set n3. metric i = ''temperature'' \<and> severity i \<noteq> ''info''"
    and n4: "length n4 \<le> 1" "\<forall>i \<in> set n4. metric i = ''power'' \<and> severity i \<noteq> ''info''"
    and nb: "\<forall>i \<in> set nb. metric i = ''memory_utilization_ratio''"
    using analyze_gpu_shape [OF assms] by blast
  have new: "drop (length ins) out = n1 @ n2 @ n3 @ n4 @ ?idle @ nb"
    by (simp add: out)
  have idle: "\<forall>i \<in> set ?idle. metric i = ''utilization'' \<and> severity i = ''info''"
    by (simp add: idle_insight_metric)
  have mem: "filter (\<lambda>i. metric i = ''memory'') (drop (length ins) out) = n2"
    unfolding new filter_append
    using n1(2) n2(2) n3(2) n4(2) nb idle
    by (simp add: filter_none filter_all)
  have temp: "filter (\<lambda>i. metric i = ''temperature'') (drop (length ins) out) = n3"
    unfolding new filter_append
    using n1(2) n2(2) n3(2) n4(2) nb idle
    by (simp add: filter_none filter_all)
  have pow: "filter (\<lambda>i. metric i = ''power'') (drop (length ins) out) = n4"
    unfolding new filter_append
    using n1(2) n2(2) n3(2) n4(2) nb idle
    by (simp add: filter_none filter_all)
  have util: "filter (\<lambda>i. metric i = ''utilization'' \<and> severity i \<noteq> ''info'')
                (drop (length ins) out) = n1"
    unfolding new filter_append
    using n1(2) n2(2) n3(2) n4(2) nb idle
    by (simp add: filter_none filter_all)
  have info: "filter (\<lambda>i. metric i = ''utilization'' \<and> severity i = ''info'')
                (drop (length ins) out) = ?idle"
    unfolding new filter_append
    using n1(2) n2(2) n3(2) n4(2) nb idle
    by (simp add: filter_none filter_all)
  show ?thesis
    unfolding mem temp pow util info
    using n1(1) n2(1) n3(1) n4(1) by (simp add: min_idle_duration_def)
qed

theorem at_most_one_threshold_insight_per_metric_witness:
  "analyze_gpu str_int default_config [row 0 96, row 1000000 5, row 400000000 5] 0 [] =
     Inr [\<lparr>ins_timestamp = 0, severity = ''critical'',
           message = ''GPU 0 utilization critically high'', metric = ''utilization'',
           ins_value = 96, threshold = 95,
           suggestion = ''Consider distributing workload across multiple GPUs or optimizing compute operations''\<rparr>,
          idle_insight str_int 0 (1000000, 400000000)] \<and>
   length (filter (\<lambda>run. snd run - fst run \<ge> 5 * 60 * 1000000)
             (idle_runs [row 0 96, row 1000000 5, row 400000000 5])) = 1"
proof -
  have a: "analyze_gpu str_int default_config [row 0 96, row 1000000 5, row 400000000 5] 0 [] =
     Inr [\<lparr>ins_timestamp = 0, severity = ''critical'',
           message = ''GPU 0 utilization critically high'', metric = ''utilization'',
           ins_value = 96, threshold = 95,
           suggestion = ''Consider distributing workload across multiple GPUs or optimizing compute operations''\<rparr>,
          idle_insight str_int 0 (1000000, 400000000)]"
    by (simp add: analyze_gpu_def check_utilization_def check_memory_usage_def
        check_temperature_def check_power_usage_def check_idle_periods_def
        check_memory_bottlenecks_def close_ongoing_def
        alert_threshold_def getitem_def default_config_def row_def series_max_def
        memory_pct_def idle_threshold_def min_idle_duration_def str_int_def str_nat.simps)
  show ?thesis
    using at_most_one_threshold_insight_per_metric [OF a]
    by (simp add: a idle_insight_def)
qed

section \<open>Properties of the profiler\<close>

subsection \<open>One pass of the loop\<close>

lemma collect_try_interval:
  "sampling_interval (snd (collect_try io st)) = sampling_interval st"
  by (simp add: collect_try_def calling_def Let_def split: sum.splits)

lemma collect_try_written:
  "written (snd (collect_try io st)) = written st"
  by (simp add: collect_try_def calling_def Let_def split: sum.splits)



lemma collect_try_called:
  "\<exists>cs. called (snd (collect_try io st)) = called st @ cs \<and> distinct cs \<and>
        Call_save_profile \<notin> set cs \<and>
        (Call_get_environment_info \<in> set cs \<longleftrightarrow> environment (current_profile st) = None) \<and>
        (environment (current_profile st) = None \<longrightarrow> hd cs = Call_get_environment_info)"
  by (simp add: collect_try_def calling_def Let_def split: sum.splits)



lemma collect_try_environment:
  "environment (current_profile st) = Some e \<Longrightarrow>
   environment (current_profile (snd (collect_try io st))) = Some e"
  by (simp add: collect_try_def calling_def Let_def split: sum.splits)

lemma collect_try_stores_environment:
  "environment (current_profile st) = None \<Longrightarrow> bind (env_result io) asdict = Inr env \<Longrightarrow>
   environment (current_profile (snd (collect_try io st))) = Some env"
  by (simp add: collect_try_def calling_def Let_def split: sum.splits)

lemma collect_sample_cases:
  obtains (ok) smp where "fst (collect_try io st) = Inr smp"
      "collect_sample io st = (Inr (Some smp), snd (collect_try io st))"
  | (caught) e where "fst (collect_try io st) = Inl e" "is_Exception e"
      "collect_sample io st =
         (Inr None, logger (ERROR (''Error collecting sample: '' @ str_exn e)) (snd (collect_try io st)))"
  | (passed) e where "fst (collect_try io st) = Inl e" "\<not> is_Exception e"
      "collect_sample io st = (Inl e, snd (collect_try io st))"
proof (cases "collect_try io st")
  case (Pair r st')
  show ?thesis
  proof (cases r)
    case (Inr smp)
    with Pair show ?thesis by (intro ok [of smp]) (simp_all add: collect_sample_def)
  next
    case (Inl e)
    show ?thesis
    proof (cases "is_Exception e")
      case True
      with Pair Inl show ?thesis by (intro caught [of e]) (simp_all add: collect_sample_def)
    next
      case False
      with Pair Inl show ?thesis by (intro passed [of e]) (simp_all add: collect_sample_def)
    qed
  qed
qed

lemma collect_sample_interval:
  "sampling_interval (snd (collect_sample io st)) = sampling_interval st"
  by (cases io st rule: collect_sample_cases) (simp_all add: logger_def collect_try_interval)

lemma collect_sample_written:
  "written (snd (collect_sample io st)) = written st"
  by (cases io st rule: collect_sample_cases) (simp_all add: logger_def collect_try_written)

lemma collect_sample_called:
  "\<exists>cs. called (snd (collect_sample io st)) = called st @ cs \<and> distinct cs \<and>
        Call_save_profile \<notin> set cs \<and>
        (Call_get_environment_info \<in> set cs \<longleftrightarrow> environment (current_profile st) = None) \<and>
        (environment (current_profile st) = None \<longrightarrow> hd cs = Call_get_environment_info)"
  using collect_try_called [of io st]
  by (cases io st rule: collect_sample_cases) (simp_all add: logger_def)

lemma collect_sample_environment:
  "environment (current_profile st) = Some e \<Longrightarrow>
   environment (current_profile (snd (collect_sample io st))) = Some e"
  by (cases io st rule: collect_sample_cases) (simp_all add: logger_def collect_try_environment)

lemma collect_sample_stores_environment:
  "environment (current_profile st) = None \<Longrightarrow> bind (env_result io) asdict = Inr env \<Longrightarrow>
   environment (current_profile (snd (collect_sample io st))) = Some env"
  by (cases io st rule: collect_sample_cases)
     (simp_all add: logger_def collect_try_stores_environment)

subsection \<open>A pass that fails\<close>






lemma plain_system_info_is_caught:
  "fst (collect_sample (plain_sys_tick t) st) = Inr None"
  by (cases "environment (current_profile st)")
     (simp_all add: collect_sample_def collect_try_def plain_sys_tick_def ok_tick_def
        calling_def Let_def)




subsection \<open>The loop as a whole\<close>

lemma count_list_append_notin:
  "x \<notin> set cs \<Longrightarrow> count_list (xs @ cs) x = count_list xs x"
  by (induction xs) (simp_all add: count_list_0_iff)

text \<open>One unfolding of the loop, in terms of the state after the pass.\<close>

lemma sampling_loop_step:
  "\<exists>st2. sampling_interval st2 = sampling_interval st \<and>
         written st2 = written st \<and>
         called st2 = called (snd (collect_sample io st)) \<and>
         current_profile st2 = current_profile (snd (collect_sample io st)) \<and>
         (sampling_loop duration start_clock (io # ios) st = (Some Break, st2) \<or>
          (\<exists>e. sampling_loop duration start_clock (io # ios) st = (Some (Raise e), st2)) \<or>
          sampling_loop duration start_clock (io # ios) st =
            sampling_loop duration start_clock ios st2)"
proof (cases "collect_sample io st")
  case (Pair r st1)
  have keep: "sampling_interval st1 = sampling_interval st" "written st1 = written st"
    using collect_sample_interval [of io st] collect_sample_written [of io st] Pair by simp_all
  show ?thesis
  proof (cases r)
    case (Inl e)
    with Pair keep show ?thesis by (intro exI [of _ st1]) simp
  next
    case (Inr smp)
    define st2 where
      "st2 = (case smp of
                Some s \<Rightarrow> logger (INFO_collected (map utilization (sample_gpu_stats s))) st1
              | None \<Rightarrow> st1)"
    have st2: "sampling_interval st2 = sampling_interval st" "written st2 = written st"
        "called st2 = called st1" "current_profile st2 = current_profile st1"
      using keep by (simp_all add: st2_def logger_def split: option.splits)
    have "sampling_loop duration start_clock (io # ios) st =
            (if duration_elapsed duration start_clock (clock io) then (Some Break, st2)
             else (case sleep (sampling_interval st2) (sleep_result io) of
                     Some e \<Rightarrow> (Some (Raise e), st2)
                   | None \<Rightarrow> sampling_loop duration start_clock ios st2))"
      using Pair Inr unfolding st2_def by (simp add: Let_def)
    then show ?thesis
      using st2 Pair by (intro exI [of _ st2]) (auto split: option.splits)
  qed
qed

lemma sampling_loop_environment:
  "environment (current_profile st) = Some e \<Longrightarrow>
   environment (current_profile (snd (sampling_loop duration start_clock ios st))) = Some e \<and>
   count_list (called (snd (sampling_loop duration start_clock ios st))) Call_get_environment_info
     = count_list (called st) Call_get_environment_info"
proof (induction ios arbitrary: st)
  case Nil
  then show ?case by simp
next
  case (Cons io ios)
  obtain st2 where st2:
      "called st2 = called (snd (collect_sample io st))"
      "current_profile st2 = current_profile (snd (collect_sample io st))"
      "sampling_loop duration start_clock (io # ios) st = (Some Break, st2) \<or>
       (\<exists>e. sampling_loop duration start_clock (io # ios) st = (Some (Raise e), st2)) \<or>
       sampling_loop duration start_clock (io # ios) st =
         sampling_loop duration start_clock ios st2"
    using sampling_loop_step [of st io duration start_clock ios] by blast
  have env2: "environment (current_profile st2) = Some e"
    using collect_sample_environment [OF Cons.prems, of io] st2(2) by simp
  obtain cs where cs: "called (snd (collect_sample io st)) = called st @ cs"
      "Call_get_environment_info \<notin> set cs"
    using collect_sample_called [of io st] Cons.prems by auto
  have cnt2: "count_list (called st2) Call_get_environment_info
                = count_list (called st) Call_get_environment_info"
    using cs st2(1) by (simp add: count_list_append_notin)
  from st2(3) show ?case
  proof (elim disjE exE)
    assume "sampling_loop duration start_clock (io # ios) st = (Some Break, st2)"
    then show ?thesis using env2 cnt2 by simp
  next
    fix e' assume "sampling_loop duration start_clock (io # ios) st = (Some (Raise e'), st2)"
    then show ?thesis using env2 cnt2 by simp
  next
    assume "sampling_loop duration start_clock (io # ios) st =
              sampling_loop duration start_clock ios st2"
    then show ?thesis using Cons.IH [OF env2] cnt2 by simp
  qed
qed

lemma sampling_loop_written:
  "written (snd (sampling_loop duration start_clock ios st)) = written st \<and>
   sampling_interval (snd (sampling_loop duration start_clock ios st)) = sampling_interval st \<and>
   count_list (called (snd (sampling_loop duration start_clock ios st))) Call_save_profile
     = count_list (called st) Call_save_profile"
proof (induction ios arbitrary: st)
  case Nil
  then show ?case by simp
next
  case (Cons io ios)
  obtain st2 where st2:
      "sampling_interval st2 = sampling_interval st" "written st2 = written st"
      "called st2 = called (snd (collect_sample io st))"
      "sampling_loop duration start_clock (io # ios) st = (Some Break, st2) \<or>
       (\<exists>e. sampling_loop duration start_clock (io # ios) st = (Some (Raise e), st2)) \<or>
       sampling_loop duration start_clock (io # ios) st =
         sampling_loop duration start_clock ios st2"
    using sampling_loop_step [of st io duration start_clock ios] by blast
  obtain cs where cs: "called (snd (collect_sample io st)) = called st @ cs"
      "Call_save_profile \<notin> set cs"
    using collect_sample_called [of io st] by auto
  have cnt2: "count_list (called st2) Call_save_profile = count_list (called st) Call_save_profile"
    using cs st2(3) by (simp add: count_list_append_notin)
  from st2(4) show ?case
  proof (elim disjE exE)
    assume "sampling_loop duration start_clock (io # ios) st = (Some Break, st2)"
    then show ?thesis using st2(1,2) cnt2 by simp
  next
    fix e' assume "sampling_loop duration start_clock (io # ios) st = (Some (Raise e'), st2)"
    then show ?thesis using st2(1,2) cnt2 by simp
  next
    assume "sampling_loop duration start_clock (io # ios) st =
              sampling_loop duration start_clock ios st2"
    then show ?thesis using Cons.IH [of st2] st2(1,2) cnt2 by simp
  qed
qed

subsection \<open>The environment snapshot\<close>

text \<open>
  C9, as the source has it. The environment is requested whenever the profile holds
  none, not on the first pass only: when the detector raises on the first pass, the
  profile still holds no environment after it, and the second pass requests it again
  and stores it.
\<close>

theorem environment_first_tick_only_counterexample:
  "called (snd (sampling_loop None 0 [env_fail_tick 1, ok_tick 2] profiler0)) =
     [Call_get_environment_info,
      Call_get_environment_info, Call_get_system_info, Call_get_all_gpu_stats] \<and>
   environment (current_profile (snd (sampling_loop None 0 [env_fail_tick 1] profiler0))) = None \<and>
   environment (current_profile
      (snd (sampling_loop None 0 [env_fail_tick 1, ok_tick 2] profiler0))) = Some ''bare-metal''"
  by (simp add: collect_sample_def collect_try_def env_fail_tick_def ok_tick_def
        profiler0_def GPUProfiler_init_def calling_def logger_def duration_elapsed_def
        sleep_def)

text \<open>
  C9, amended. A pass requests the environment exactly once, as its first call, when
  the profile holds none, and stores it if the request succeeds. Once an environment
  is stored, no later pass of the loop requests it again and none changes it.
\<close>

theorem environment_requested_until_stored:
  "(environment (current_profile st) = None \<longrightarrow>
      (\<exists>cs. called (snd (collect_sample io st)) = called st @ Call_get_environment_info # cs \<and>
            Call_get_environment_info \<notin> set cs) \<and>
      (bind (env_result io) asdict = Inr env \<longrightarrow>
         environment (current_profile (snd (collect_sample io st))) = Some env)) \<and>
   (environment (current_profile st) = Some e \<longrightarrow>
      environment (current_profile (snd (sampling_loop duration start_clock ios st))) = Some e \<and>
      count_list (called (snd (sampling_loop duration start_clock ios st)))
          Call_get_environment_info
        = count_list (called st) Call_get_environment_info)"
proof -
  have "\<exists>cs. called (snd (collect_sample io st)) = called st @ Call_get_environment_info # cs \<and>
             Call_get_environment_info \<notin> set cs"
    if none: "environment (current_profile st) = None"
  proof -
    obtain cs where cs: "called (snd (collect_sample io st)) = called st @ cs" "distinct cs"
        "Call_get_environment_info \<in> set cs" "hd cs = Call_get_environment_info"
      using collect_sample_called [of io st] none by auto
    then obtain cs' where "cs = Call_get_environment_info # cs'"
      by (cases cs) auto
    with cs show ?thesis by auto
  qed
  then show ?thesis
    using sampling_loop_environment [of st e duration start_clock ios]
      collect_sample_stores_environment [of st io env]
    by blast
qed

theorem environment_requested_until_stored_witness:
  "environment (current_profile profiler0) = None \<and>
   called (snd (collect_sample (ok_tick 1) profiler0)) =
     [Call_get_environment_info, Call_get_system_info, Call_get_all_gpu_stats] \<and>
   environment (current_profile (snd (collect_sample (ok_tick 1) profiler0))) = Some ''bare-metal'' \<and>
   environment (current_profile
      (snd (sampling_loop None 0 [env_fail_tick 2, ok_tick 3]
              (snd (collect_sample (ok_tick 1) profiler0))))) = Some ''bare-metal'' \<and>
   count_list (called (snd (sampling_loop None 0 [env_fail_tick 2, ok_tick 3]
              (snd (collect_sample (ok_tick 1) profiler0))))) Call_get_environment_info = 1"
proof -
  have a: "environment (current_profile (snd (collect_sample (ok_tick 1) profiler0)))
             = Some ''bare-metal''"
    and b: "called (snd (collect_sample (ok_tick 1) profiler0)) =
             [Call_get_environment_info, Call_get_system_info, Call_get_all_gpu_stats]"
    and c: "environment (current_profile profiler0) = None"
    by (simp_all add: collect_sample_def collect_try_def ok_tick_def
        profiler0_def GPUProfiler_init_def calling_def logger_def)
  show ?thesis
    using environment_requested_until_stored
            [of "snd (collect_sample (ok_tick 1) profiler0)" "ok_tick 1" "''bare-metal''"
                "''bare-metal''" None 0 "[env_fail_tick 2, ok_tick 3]"]
          environment_requested_until_stored
            [of profiler0 "ok_tick 1" "''bare-metal''" "''bare-metal''" None 0 "[]"]
    by (simp add: a b c)
qed

subsection \<open>Finalization\<close>

lemma count_list_snoc:
  "count_list (xs @ [y]) x = (if x = y then Suc (count_list xs x) else count_list xs x)"
  by (induction xs) simp_all

text \<open>
  C7. Whenever the loop ends, by the duration test, by an interruption or by any other
  exception, \<open>start_profiling\<close> comes to an end too and has called
  \<open>_save_profile\<close> exactly once, with the profile as the loop left it. If the write
  works, that profile is what has been written. If the write fails with an
  \<open>Exception\<close>, nothing is written, the error is logged and it is not raised again.
  After a loop ended by the duration test, by \<open>KeyboardInterrupt\<close> or by an
  \<open>Exception\<close>, and a write that works or fails with an \<open>Exception\<close>,
  \<open>start_profiling\<close> returns normally.
\<close>

theorem finalization_saves_once:
  assumes loop: "sampling_loop duration start_clock ios
                   (logger (INFO ''Starting GPU profiling...'') st) = (Some ex, st1)"
  shows "\<exists>out st'. start_profiling duration start_clock ios sv st = (Some out, st') \<and>
           count_list (called st') Call_save_profile
             = Suc (count_list (called st) Call_save_profile) \<and>
           current_profile st' = current_profile st1 \<and>
           (write_result sv = None \<longrightarrow> written st' = written st @ [current_profile st1]) \<and>
           (\<forall>e. write_result sv = Some e \<and> is_Exception e \<longrightarrow>
                written st' = written st \<and>
                ERROR (''Error saving profile: '' @ str_exn e) \<in> set (logged st') \<and>
                out \<noteq> Raised e) \<and>
           ((write_result sv = None \<or> (\<exists>e. write_result sv = Some e \<and> is_Exception e)) \<and>
            (ex = Break \<or> ex = Raise KeyboardInterrupt \<or> (\<exists>e. ex = Raise e \<and> is_Exception e))
              \<longrightarrow> out = Returned)"
proof -
  let ?st0 = "logger (INFO ''Starting GPU profiling...'') st"
  have w1: "written st1 = written st"
    and c1: "count_list (called st1) Call_save_profile = count_list (called st) Call_save_profile"
    using sampling_loop_written [of duration start_clock ios ?st0] loop
    by (simp_all add: logger_def)
  define pst where
    "pst = (case ex of
              Break \<Rightarrow> (None, st1)
            | Raise e \<Rightarrow>
                (if e = KeyboardInterrupt
                 then (None, logger (INFO ''Profiling interrupted by user'') st1)
                 else if is_Exception e
                 then (None, logger (ERROR (''Error during profiling: '' @ str_exn e)) st1)
                 else (Some e, st1)))"
  obtain pending st2 where p: "pst = (pending, st2)"
    by (cases pst)
  have st2: "written st2 = written st" "called st2 = called st1"
      "current_profile st2 = current_profile st1"
    using p w1 by (auto simp add: pst_def logger_def split: loop_exit.splits if_splits)
  have pend: "\<forall>e. pending = Some e \<longrightarrow> \<not> is_Exception e"
    using p by (auto simp add: pst_def split: loop_exit.splits if_splits)
  have caught: "ex = Break \<or> ex = Raise KeyboardInterrupt \<or> (\<exists>e. ex = Raise e \<and> is_Exception e)
                 \<Longrightarrow> pending = None"
    using p by (auto simp add: pst_def split: loop_exit.splits if_splits)
  have sp: "start_profiling duration start_clock ios sv st =
              (case save_profile sv st2 of
                 (Some e, st3) \<Rightarrow> (Some (Raised e), st3)
               | (None, st3) \<Rightarrow>
                   (Some (case pending of None \<Rightarrow> Returned | Some e \<Rightarrow> Raised e),
                    logger (INFO ''Profiling completed'') st3))"
    using loop p by (simp add: start_profiling_def pst_def)
  have cnt: "count_list (called st2 @ [Call_save_profile]) Call_save_profile
               = Suc (count_list (called st) Call_save_profile)"
    by (simp add: count_list_snoc st2(2) c1)
  show ?thesis
  proof (cases "write_result sv")
    case None
    have "save_profile sv st2 =
            (None, logger (INFO (''Profile saved to '' @ output_file sv))
                     ((calling Call_save_profile st2)
                        \<lparr>written := written st2 @ [current_profile st2]\<rparr>))"
      by (simp add: save_profile_def None calling_def Let_def)
    then show ?thesis
      using cnt st2 caught None
      by (auto simp add: sp logger_def calling_def split: option.splits)
  next
    case (Some e)
    show ?thesis
    proof (cases "is_Exception e")
      case True
      have "save_profile sv st2 =
              (None, logger (ERROR (''Error saving profile: '' @ str_exn e))
                       (calling Call_save_profile st2))"
        by (simp add: save_profile_def Some True Let_def)
      then show ?thesis
        using cnt st2 caught pend Some True
        by (auto simp add: sp logger_def calling_def split: option.splits)
    next
      case False
      have "save_profile sv st2 = (Some e, calling Call_save_profile st2)"
        by (simp add: save_profile_def Some False Let_def)
      then show ?thesis
        using cnt st2 Some False
        by (auto simp add: sp calling_def)
    qed
  qed
qed

theorem finalization_saves_once_witness:
  "(case sampling_loop None 0 [ok_tick 1, interrupted_tick 2]
           (logger (INFO ''Starting GPU profiling...'') profiler0) of
      (ex, st1) \<Rightarrow> ex = Some (Raise KeyboardInterrupt) \<and>
                    length (gpu_stats (current_profile st1)) = 2) \<and>
   (case start_profiling None 0 [ok_tick 1, interrupted_tick 2] save_fails profiler0 of
      (out, st') \<Rightarrow> out = Some Returned \<and> written st' = [] \<and>
         called st' = [Call_get_environment_info, Call_get_system_info, Call_get_all_gpu_stats,
                       Call_get_system_info, Call_get_all_gpu_stats, Call_save_profile] \<and>
         length (gpu_stats (current_profile st')) = 2 \<and>
         ERROR ''Error saving profile: Object of type datetime is not JSON serializable''
           \<in> set (logged st')) \<and>
   (case start_profiling None 0 [ok_tick 1, interrupted_tick 2] save_ok profiler0 of
      (out, st') \<Rightarrow> out = Some Returned \<and> written st' = [current_profile st'])"
proof -
  let ?loop = "sampling_loop None 0 [ok_tick 1, interrupted_tick 2]
                 (logger (INFO ''Starting GPU profiling...'') profiler0)"
  have l: "?loop = (Some (Raise KeyboardInterrupt), snd ?loop)"
    by (simp add: collect_sample_def collect_try_def interrupted_tick_def ok_tick_def
        profiler0_def GPUProfiler_init_def calling_def logger_def duration_elapsed_def
        sleep_def)
  show ?thesis
    using finalization_saves_once [OF l, of save_fails]
          finalization_saves_once [OF l, of save_ok]
    by (simp add: start_profiling_def save_profile_def save_fails_def save_ok_def
        collect_sample_def collect_try_def interrupted_tick_def ok_tick_def
        profiler0_def GPUProfiler_init_def calling_def logger_def duration_elapsed_def
        sleep_def)
qed

subsection \<open>A duration of zero\<close>

lemma ok_tick_collected:
  "\<exists>smp st1. collect_sample (ok_tick t) st = (Inr (Some smp), st1)"
  by (simp add: collect_sample_def collect_try_def ok_tick_def calling_def Let_def)

lemma zero_duration_loop:
  "0 \<le> sampling_interval st \<Longrightarrow>
   fst (sampling_loop (Some 0) start_clock (map ok_tick ts) st) = None \<and>
   written (snd (sampling_loop (Some 0) start_clock (map ok_tick ts) st)) = written st"
proof (induction ts arbitrary: st)
  case Nil
  then show ?case by simp
next
  case (Cons t ts)
  obtain smp st1 where c: "collect_sample (ok_tick t) st = (Inr (Some smp), st1)"
    using ok_tick_collected by blast
  define st2 where "st2 = logger (INFO_collected (map utilization (sample_gpu_stats smp))) st1"
  have keep: "sampling_interval st2 = sampling_interval st" "written st2 = written st"
    using collect_sample_interval [of "ok_tick t" st] collect_sample_written [of "ok_tick t" st] c
    by (simp_all add: st2_def logger_def)
  have "sampling_loop (Some 0) start_clock (map ok_tick (t # ts)) st =
          sampling_loop (Some 0) start_clock (map ok_tick ts) st2"
    using c keep(1) Cons.prems unfolding st2_def
    by (simp add: duration_elapsed_def sleep_def ok_tick_def Let_def)
  then show ?case
    using Cons.IH [of st2] keep Cons.prems by simp
qed

text \<open>
  C1, on the source. With \<open>duration = 0\<close> the test
  \<open>duration and (time.time() - start_time) >= duration\<close> is false on every pass,
  since \<open>0\<close> is false in Python: with monitors that answer and a sleep that is not
  interrupted, the loop is still running after any number of passes, whatever the
  clock reads, and nothing is written; it behaves as with \<open>duration = None\<close>. With
  \<open>duration = 1\<close> the same first pass ends the run.
\<close>

theorem zero_duration_never_breaks:
  "fst (start_profiling (Some 0) start_clock (map ok_tick ts) sv profiler0) = None \<and>
   written (snd (start_profiling (Some 0) start_clock (map ok_tick ts) sv profiler0)) = [] \<and>
   fst (start_profiling (Some 1) 0 [ok_tick 1] save_ok profiler0) = Some Returned \<and>
   fst (start_profiling None start_clock (map ok_tick ts) sv profiler0) =
     fst (start_profiling (Some 0) start_clock (map ok_tick ts) sv profiler0)"
proof -
  let ?st0 = "logger (INFO ''Starting GPU profiling...'') profiler0"
  have i: "0 \<le> sampling_interval ?st0" and w: "written ?st0 = []"
    by (simp_all add: logger_def profiler0_def GPUProfiler_init_def)
  obtain r st1 where l: "sampling_loop (Some 0) start_clock (map ok_tick ts) ?st0 = (r, st1)"
    by (cases "sampling_loop (Some 0) start_clock (map ok_tick ts) ?st0")
  have r: "r = None" and w1: "written st1 = []"
    using zero_duration_loop [OF i, of start_clock ts] l w by simp_all
  have zero: "start_profiling (Some 0) start_clock (map ok_tick ts) sv profiler0 = (None, st1)"
    using l r by (simp add: start_profiling_def)
  have one: "fst (start_profiling (Some 1) 0 [ok_tick 1] save_ok profiler0) = Some Returned"
    by (simp add: start_profiling_def save_profile_def save_ok_def
        collect_sample_def collect_try_def ok_tick_def
        profiler0_def GPUProfiler_init_def calling_def logger_def duration_elapsed_def
        sleep_def)
  have same: "sampling_loop None start_clock ios st = sampling_loop (Some 0) start_clock ios st"
    for ios :: "(string, string) tick list" and st
    by (induction ios arbitrary: st)
       (simp_all add: duration_elapsed_def Let_def split: prod.splits sum.splits option.splits)
  have none: "fst (start_profiling None start_clock (map ok_tick ts) sv profiler0) = None"
    using l r by (simp add: start_profiling_def same)
  show ?thesis
    using zero w1 one none by simp
qed

end
